theory Spec2Isabelle
  imports Complex_Main
begin

section \<open>Data model\<close>

text \<open>
  An edge list is a torch tensor of shape \<open>(2, m)\<close>: row 0 holds the source endpoints,
  row 1 the target endpoints, column \<open>k\<close> is edge \<open>k\<close>. The two rows of a tensor have the
  same length; \<open>wf_tensor\<close> states it. \<open>shape1\<close> is \<open>t.shape[1]\<close>.
\<close>

datatype tensor = Tensor (row0: "int list") (row1: "int list")

definition wf_tensor :: "tensor \<Rightarrow> bool" where
  "wf_tensor t \<longleftrightarrow> length (row0 t) = length (row1 t)"

definition shape1 :: "tensor \<Rightarrow> nat" where
  "shape1 t = length (row0 t)"

definition columns :: "tensor \<Rightarrow> (int \<times> int) list" where
  "columns t = zip (row0 t) (row1 t)"

text \<open>The exceptions the modelled calls can raise.\<close>

datatype error = IndexError | ValueError | RuntimeError

subsection \<open>Library operations on tensors\<close>

text \<open>
  \<open>x.nonzero()\<close> on a one-dimensional array: the indices of the entries different from
  zero, in increasing order.
\<close>

definition nonzero :: "int list \<Rightarrow> nat list" where
  "nonzero msk = filter (\<lambda>k. msk ! k \<noteq> 0) [0..<length msk]"

text \<open>
  \<open>t[:, ks]\<close> and \<open>xs[ks]\<close>: selection by an index array. An index outside the indexed
  dimension raises IndexError; \<open>select_cols\<close> is the selection itself, \<open>index_cols\<close> the
  indexing with its range check.
\<close>

definition select_cols :: "tensor \<Rightarrow> nat list \<Rightarrow> tensor" where
  "select_cols t ks = Tensor (map (\<lambda>k. row0 t ! k) ks) (map (\<lambda>k. row1 t ! k) ks)"

definition index_cols :: "tensor \<Rightarrow> nat list \<Rightarrow> error + tensor" where
  "index_cols t ks =
     (if \<forall>k \<in> set ks. k < length (row0 t) \<and> k < length (row1 t)
      then Inr (select_cols t ks)
      else Inl IndexError)"

definition index_1d :: "int list \<Rightarrow> nat list \<Rightarrow> error + int list" where
  "index_1d xs ks =
     (if \<forall>k \<in> set ks. k < length xs then Inr (map (\<lambda>k. xs ! k) ks) else Inl IndexError)"

text \<open>
  \<open>torch.cat(ts, dim=1)\<close> on two-row tensors joins them column-wise; on an empty list
  it raises RuntimeError. \<open>cat_cols\<close> is the join itself, \<open>torch_cat\<close> the call with its
  check; \<open>torch_cat_1d\<close> is \<open>torch.cat\<close> on one-dimensional tensors.
\<close>

definition cat_cols :: "tensor list \<Rightarrow> tensor" where
  "cat_cols ts = Tensor (concat (map row0 ts)) (concat (map row1 ts))"

definition torch_cat :: "tensor list \<Rightarrow> error + tensor" where
  "torch_cat ts = (if ts = [] then Inl RuntimeError else Inr (cat_cols ts))"

definition torch_cat_1d :: "int list list \<Rightarrow> error + int list" where
  "torch_cat_1d xss = (if xss = [] then Inl RuntimeError else Inr (concat xss))"

section \<open>Edge directionality\<close>

text \<open>
  \<open>remove_bidirection\<close> (utils.py, lines 10-17). The comparison yields a 0/1 mask \<open>msk\<close>;
  \<open>keep_set\<close> is its nonzero index list. With \<open>edge_type = None\<close> only the edge list is
  returned, otherwise the pair; the model returns the pair with an optional second part.
\<close>

definition remove_bidirection ::
  "tensor \<Rightarrow> int list option \<Rightarrow> error + (tensor \<times> int list option)" where
  "remove_bidirection edge_index edge_type =
     (let msk = map2 (\<lambda>a b. if a > b then 1 else 0) (row0 edge_index) (row1 edge_index);
          keep_set = nonzero msk
      in case edge_type of
           None \<Rightarrow>
             (case index_cols edge_index keep_set of
                Inl e \<Rightarrow> Inl e
              | Inr kept \<Rightarrow> Inr (kept, None))
         | Some et \<Rightarrow>
             (case index_cols edge_index keep_set of
                Inl e \<Rightarrow> Inl e
              | Inr kept \<Rightarrow>
                  (case index_1d et keep_set of
                     Inl e \<Rightarrow> Inl e
                   | Inr kept_type \<Rightarrow> Inr (kept, Some kept_type))))"

text \<open>
  \<open>to_bidirection\<close> (utils.py, lines 20-26). \<open>tmp\<close> is the clone whose row 0 receives
  row 1 of \<open>edge_index\<close> and whose row 1 receives row 0 of \<open>edge_index\<close>. No statement of
  the function raises on a two-row tensor, so the model is a total function.
\<close>

definition to_bidirection :: "tensor \<Rightarrow> int list option \<Rightarrow> tensor \<times> int list option" where
  "to_bidirection edge_index edge_type =
     (let tmp = Tensor (row1 edge_index) (row0 edge_index)
      in case edge_type of
           None \<Rightarrow> (cat_cols [edge_index, tmp], None)
         | Some et \<Rightarrow> (cat_cols [edge_index, tmp], Some (et @ et)))"

text \<open>A canonical edge list: in every column the source index is above the target index.\<close>

definition canonical :: "tensor \<Rightarrow> bool" where
  "canonical t \<longleftrightarrow> (\<forall>(u, v) \<in> set (columns t). u > v)"

section \<open>Range tables\<close>

text \<open>
  \<open>get_range_list\<close> (utils.py, lines 29-35): the loop carries the running offset \<open>s\<close>
  and the list \<open>tmp\<close> of the pairs appended so far.
\<close>

fun get_range_loop :: "nat \<Rightarrow> tensor list \<Rightarrow> (nat \<times> nat) list \<Rightarrow> (nat \<times> nat) list" where
  "get_range_loop s [] tmp = tmp"
| "get_range_loop s (i # rest) tmp =
     get_range_loop (s + shape1 i) rest (tmp @ [(s, s + shape1 i)])"

definition get_range_list :: "tensor list \<Rightarrow> (nat \<times> nat) list" where
  "get_range_list edge_list = get_range_loop 0 edge_list []"

text \<open>
  What a consumer of a range entry \<open>(s, e)\<close> reads: the columns \<open>t[:, s:e]\<close> of the flat
  tensor and the entries \<open>xs[s:e]\<close> of the flat label sequence.
\<close>

definition slice_cols :: "tensor \<Rightarrow> nat \<Rightarrow> nat \<Rightarrow> tensor" where
  "slice_cols t s e = Tensor (take (e - s) (drop s (row0 t))) (take (e - s) (drop s (row1 t)))"

definition slice_1d :: "int list \<Rightarrow> nat \<Rightarrow> nat \<Rightarrow> int list" where
  "slice_1d xs s e = take (e - s) (drop s xs)"

section \<open>The train/test splitter\<close>

text \<open>
  \<open>np.random.binomial(1, p, n)\<close> draws \<open>n\<close> independent Bernoulli(p) values. The
  sampler rejects a parameter outside \<open>[0, 1]\<close> with ValueError before it draws. The
  values drawn are an argument of the model (\<open>outcome\<close>); \<open>binomial_outcome\<close> says which
  outcomes the sampler can produce: \<open>n\<close> values, each of positive probability.
  The float \<open>p\<close> is read as the real number it denotes.
\<close>

definition bernoulli_pmf :: "real \<Rightarrow> int \<Rightarrow> real" where
  "bernoulli_pmf p x = (if x = 1 then p else if x = 0 then 1 - p else 0)"

definition binomial_outcome :: "real \<Rightarrow> nat \<Rightarrow> int list \<Rightarrow> bool" where
  "binomial_outcome p n outcome \<longleftrightarrow>
     length outcome = n \<and> (\<forall>x \<in> set outcome. 0 < bernoulli_pmf p x)"

definition binomial_1 :: "real \<Rightarrow> nat \<Rightarrow> int list \<Rightarrow> error + int list" where
  "binomial_1 p n outcome = (if p < 0 \<or> 1 < p then Inl ValueError else Inr outcome)"

text \<open>
  \<open>process_edges\<close> (utils.py, lines 38-68). The four lists the loop appends to are the
  fields of \<open>split_lists\<close>; \<open>rng i\<close> is the outcome of the draw made in iteration \<open>i\<close>.
  After the loop, \<open>train_bi\<close> and \<open>test_bi\<close> are the lists the two comprehensions
  rebind \<open>train_list\<close> and \<open>test_list\<close> to, \<open>train_rg\<close> and \<open>test_rg\<close> the range
  tables; the four \<open>torch.cat\<close> calls follow in the source's order, and the six
  results are the fields of \<open>split_result\<close>.
\<close>

record split_lists =
  train_list :: "tensor list"
  test_list :: "tensor list"
  train_label_list :: "int list list"
  test_label_list :: "int list list"

fun process_loop ::
  "real \<Rightarrow> (nat \<Rightarrow> int list) \<Rightarrow> nat \<Rightarrow> tensor list \<Rightarrow> split_lists \<Rightarrow> error + split_lists" where
  "process_loop p rng i [] st = Inr st"
| "process_loop p rng i (idx # rest) st =
     (case binomial_1 p (shape1 idx) (rng i) of
        Inl e \<Rightarrow> Inl e
      | Inr train_mask \<Rightarrow>
          (let test_mask = map (\<lambda>x. 1 - x) train_mask;
               train_set = nonzero train_mask;
               test_set = nonzero test_mask
           in case index_cols idx train_set of
                Inl e \<Rightarrow> Inl e
              | Inr train_cols \<Rightarrow>
                  (case index_cols idx test_set of
                     Inl e \<Rightarrow> Inl e
                   | Inr test_cols \<Rightarrow>
                       process_loop p rng (i + 1) rest
                         \<lparr>train_list = train_list st @ [train_cols],
                          test_list = test_list st @ [test_cols],
                          train_label_list =
                            train_label_list st @ [replicate (2 * length train_set) (int i)],
                          test_label_list =
                            test_label_list st @ [replicate (2 * length test_set) (int i)]\<rparr>)))"

record split_result =
  train_edge_idx :: tensor
  train_et :: "int list"
  train_range :: "(nat \<times> nat) list"
  test_edge_idx :: tensor
  test_et :: "int list"
  test_range :: "(nat \<times> nat) list"

definition process_edges ::
  "tensor list \<Rightarrow> real \<Rightarrow> (nat \<Rightarrow> int list) \<Rightarrow> error + split_result" where
  "process_edges raw_edge_list p rng =
     (case process_loop p rng 0 raw_edge_list
             \<lparr>train_list = [], test_list = [], train_label_list = [], test_label_list = []\<rparr> of
        Inl e \<Rightarrow> Inl e
      | Inr st \<Rightarrow>
          (let train_bi = map (\<lambda>idx. fst (to_bidirection idx None)) (train_list st);
               test_bi = map (\<lambda>idx. fst (to_bidirection idx None)) (test_list st);
               train_rg = get_range_list train_bi;
               test_rg = get_range_list test_bi
           in case torch_cat train_bi of
                Inl e \<Rightarrow> Inl e
              | Inr train_edges \<Rightarrow>
                  (case torch_cat test_bi of
                     Inl e \<Rightarrow> Inl e
                   | Inr test_edges \<Rightarrow>
                       (case torch_cat_1d (train_label_list st) of
                          Inl e \<Rightarrow> Inl e
                        | Inr train_labels \<Rightarrow>
                            (case torch_cat_1d (test_label_list st) of
                               Inl e \<Rightarrow> Inl e
                             | Inr test_labels \<Rightarrow>
                                 Inr \<lparr>train_edge_idx = train_edges, train_et = train_labels,
                                      train_range = train_rg, test_edge_idx = test_edges,
                                      test_et = test_labels, test_range = test_rg\<rparr>)))))"

text \<open>
  The index sets of iteration \<open>i\<close> and the inputs a call can meet: every per-type tensor
  well formed, every draw an outcome of the sampler for that type's column count.
\<close>

definition train_set_of :: "(nat \<Rightarrow> int list) \<Rightarrow> nat \<Rightarrow> nat list" where
  "train_set_of rng i = nonzero (rng i)"

definition test_set_of :: "(nat \<Rightarrow> int list) \<Rightarrow> nat \<Rightarrow> nat list" where
  "test_set_of rng i = nonzero (map (\<lambda>x. 1 - x) (rng i))"

definition wf_input :: "tensor list \<Rightarrow> bool" where
  "wf_input raw \<longleftrightarrow> (\<forall>t \<in> set raw. wf_tensor t)"

definition draws_ok :: "real \<Rightarrow> tensor list \<Rightarrow> (nat \<Rightarrow> int list) \<Rightarrow> bool" where
  "draws_ok p raw rng \<longleftrightarrow>
     (\<forall>i < length raw. binomial_outcome p (shape1 (raw ! i)) (rng i))"

text \<open>
  Names for what the theorems below compare the output with. \<open>segments sets raw\<close> are
  the per-type tensors a call joins when iteration \<open>i\<close> selects the columns \<open>sets i\<close>;
  \<open>seg_labels\<close> are the label blocks; \<open>seg_start ts i\<close> counts the columns of the
  tensors before position \<open>i\<close> in \<open>ts\<close>.
\<close>

definition segments :: "(nat \<Rightarrow> nat list) \<Rightarrow> tensor list \<Rightarrow> tensor list" where
  "segments sets raw =
     map (\<lambda>(i, idx). fst (to_bidirection (select_cols idx (sets i)) None)) (enumerate 0 raw)"

definition seg_labels :: "(nat \<Rightarrow> nat list) \<Rightarrow> tensor list \<Rightarrow> int list list" where
  "seg_labels sets raw =
     map (\<lambda>(i, idx). replicate (2 * length (sets i)) (int i)) (enumerate 0 raw)"

definition seg_start :: "tensor list \<Rightarrow> nat \<Rightarrow> nat" where
  "seg_start ts i = sum_list (map shape1 (take i ts))"

section \<open>Coordinate matrices\<close>

text \<open>
  A scipy coordinate matrix: entry \<open>k\<close> sits at \<open>(row[k], col[k])\<close> and has the value
  \<open>data[k]\<close>. \<open>xs[msk]\<close> with a boolean array keeps the entries where the mask is true.
  \<open>get_edge_index_from_coo\<close> (utils.py, lines 121-129); \<open>half[[1, 0], :]\<close> is \<open>half\<close> with
  its two rows exchanged.
\<close>

record coo_matrix =
  row :: "int list"
  col :: "int list"
  data :: "real list"

definition bool_index :: "int list \<Rightarrow> bool list \<Rightarrow> int list" where
  "bool_index xs msk = map fst (filter snd (zip xs msk))"

definition get_edge_index_from_coo :: "coo_matrix \<Rightarrow> bool \<Rightarrow> tensor" where
  "get_edge_index_from_coo mat bidirection =
     (if bidirection then
        (let msk = map2 (\<lambda>r c. r > c) (row mat) (col mat);
             half = Tensor (bool_index (row mat) msk) (bool_index (col mat) msk);
             full = cat_cols [half, Tensor (row1 half) (row0 half)]
         in full)
      else Tensor (row mat) (col mat))"

section \<open>A store for aliasing\<close>

text \<open>
  To follow what \<open>to_bidirection\<close> writes and where, tensors live in a store: a list
  of tensors, an address being a position in it. \<open>clone\<close> and \<open>torch.cat\<close> allocate a
  fresh tensor at the end of the store. \<open>t[r, :]\<close> on the right of an assignment is a
  view: it names row \<open>r\<close> of the tensor at an address and is read when the assignment
  copies from it. \<open>t[r, :] = v\<close> overwrites row \<open>r\<close> of the tensor at \<open>t\<close> in place.
\<close>

type_synonym addr = nat
type_synonym store = "tensor list"
type_synonym view = "addr \<times> nat"

definition clone :: "store \<Rightarrow> addr \<Rightarrow> store \<times> addr" where
  "clone s a = (s @ [s ! a], length s)"

definition read_view :: "store \<Rightarrow> view \<Rightarrow> int list" where
  "read_view s v = (if snd v = 0 then row0 (s ! fst v) else row1 (s ! fst v))"

definition assign_row :: "store \<Rightarrow> addr \<Rightarrow> nat \<Rightarrow> view \<Rightarrow> store" where
  "assign_row s a r v =
     (let src = read_view s v; t = s ! a
      in s[a := (if r = 0 then Tensor src (row1 t) else Tensor (row0 t) src)])"

definition cat_st :: "store \<Rightarrow> addr list \<Rightarrow> store \<times> addr" where
  "cat_st s as = (s @ [cat_cols (map (\<lambda>a. s ! a) as)], length s)"

text \<open>
  \<open>to_bidirection\<close> on the store, statement by statement. The right-hand side of the
  tuple assignment is built first (two views of \<open>edge_index\<close>), then row 0 of \<open>tmp\<close> is
  assigned, then row 1. The labels are only read, so they are passed by value.
\<close>

definition to_bidirection_st ::
  "store \<Rightarrow> addr \<Rightarrow> int list option \<Rightarrow> store \<times> addr \<times> int list option" where
  "to_bidirection_st s edge_index edge_type =
     (let (s1, tmp) = clone s edge_index;
          rhs_a = (edge_index, 1);
          rhs_b = (edge_index, 0);
          s2 = assign_row s1 tmp 0 rhs_a;
          s3 = assign_row s2 tmp 1 rhs_b;
          (s4, out) = cat_st s3 [edge_index, tmp]
      in case edge_type of
           None \<Rightarrow> (s4, out, None)
         | Some et \<Rightarrow> (s4, out, Some (et @ et)))"

section \<open>Properties of the directionality operations\<close>

lemma to_bidirection_fst:
  "fst (to_bidirection E et) = Tensor (row0 E @ row1 E) (row1 E @ row0 E)"
  by (cases et) (simp_all add: to_bidirection_def cat_cols_def Let_def)

lemma columns_to_bidirection:
  assumes "wf_tensor E"
  shows "columns (fst (to_bidirection E et)) = columns E @ map (\<lambda>(u, v). (v, u)) (columns E)"
proof -
  have len: "length (row0 E) = length (row1 E)"
    using assms by (simp add: wf_tensor_def)
  have "zip (row1 E) (row0 E) = map (\<lambda>(u, v). (v, u)) (zip (row0 E) (row1 E))"
    by (rule zip_commute)
  then show ?thesis
    using len by (simp add: to_bidirection_fst columns_def)
qed

text \<open>
  Claim C3. For an edge list \<open>E\<close> with \<open>m\<close> columns, \<open>to_bidirection E\<close> has exactly
  \<open>2 m\<close> columns (in both rows), and with every column \<open>(u, v)\<close> of the output the
  reversed column \<open>(v, u)\<close> is in the output too; with or without labels.
\<close>

theorem to_bidirection_symmetric:
  assumes "wf_tensor E"
  shows "shape1 (fst (to_bidirection E et)) = 2 * shape1 E
       \<and> wf_tensor (fst (to_bidirection E et))
       \<and> length (columns (fst (to_bidirection E et))) = 2 * shape1 E
       \<and> (\<forall>(u, v) \<in> set (columns (fst (to_bidirection E et))).
            (v, u) \<in> set (columns (fst (to_bidirection E et))))"
proof -
  have len: "length (row0 E) = length (row1 E)"
    using assms by (simp add: wf_tensor_def)
  have sym: "\<forall>(u, v) \<in> set (columns (fst (to_bidirection E et))).
               (v, u) \<in> set (columns (fst (to_bidirection E et)))"
    unfolding columns_to_bidirection [OF assms] by force
  have "length (columns (fst (to_bidirection E et))) = 2 * shape1 E"
    unfolding columns_to_bidirection [OF assms] using len by (simp add: columns_def shape1_def)
  with sym len show ?thesis
    by (simp add: to_bidirection_fst shape1_def wf_tensor_def)
qed

theorem to_bidirection_symmetric_witness:
  "wf_tensor (Tensor [3, 5] [1, 2])
   \<and> shape1 (fst (to_bidirection (Tensor [3, 5] [1, 2]) None)) = 4
   \<and> columns (fst (to_bidirection (Tensor [3, 5] [1, 2]) None)) = [(3, 1), (5, 2), (1, 3), (2, 5)]"
proof -
  have h: "wf_tensor (Tensor [3, 5] [1, 2])"
    by (simp add: wf_tensor_def)
  have c: "columns (fst (to_bidirection (Tensor [3, 5] [1, 2]) None))
             = [(3, 1), (5, 2), (1, 3), (2, 5)]"
    by (simp add: to_bidirection_fst columns_def)
  show ?thesis
    using h c to_bidirection_symmetric [OF h, of None] by (simp add: shape1_def)
qed

lemma nonzero_append_ones_zeros:
  "nonzero (replicate m 1 @ replicate n 0) = [0..<m]"
proof -
  let ?P = "\<lambda>k. (replicate m (1::int) @ replicate n 0) ! k \<noteq> 0"
  have split: "[0..<m + n] = [0..<m] @ [m..<m + n]"
    by (rule upt_add_eq_append) simp
  have a: "filter ?P [0..<m] = [0..<m]"
    by (rule filter_True) (simp add: nth_append)
  have b: "filter ?P [m..<m + n] = []"
    by (rule filter_False) (auto simp: nth_append)
  have "nonzero (replicate m 1 @ replicate n 0) = filter ?P [0..<m + n]"
    by (simp add: nonzero_def)
  also have "\<dots> = filter ?P [0..<m] @ filter ?P [m..<m + n]"
    by (simp only: split filter_append)
  also have "\<dots> = [0..<m]"
    by (simp only: a b append_Nil2)
  finally show ?thesis .
qed

lemma map2_all:
  "length xs = length ys \<Longrightarrow> \<forall>(a, b) \<in> set (zip xs ys). P a b
   \<Longrightarrow> map2 (\<lambda>a b. if P a b then c else d) xs ys = replicate (length xs) c"
  by (induction xs ys rule: list_induct2) auto

lemma map2_none:
  "length xs = length ys \<Longrightarrow> \<forall>(a, b) \<in> set (zip xs ys). \<not> P a b
   \<Longrightarrow> map2 (\<lambda>a b. if P a b then c else d) xs ys = replicate (length xs) d"
  by (induction xs ys rule: list_induct2) auto

lemma canonical_mask:
  assumes "wf_tensor E" "canonical E"
  shows "map2 (\<lambda>a b. if a > b then (1::int) else 0) (row0 E @ row1 E) (row1 E @ row0 E)
           = replicate (shape1 E) 1 @ replicate (shape1 E) 0"
proof -
  have len: "length (row0 E) = length (row1 E)"
    using assms(1) by (simp add: wf_tensor_def)
  have a: "\<forall>(a, b) \<in> set (zip (row0 E) (row1 E)). a > b"
    using assms(2) by (simp add: canonical_def columns_def)
  have c: "row1 E ! i < row0 E ! i" if "i < length (row0 E)" for i
  proof -
    have "(row0 E ! i, row1 E ! i) \<in> set (zip (row0 E) (row1 E))"
      using that len by (auto simp: set_zip)
    with a show ?thesis by blast
  qed
  have b: "\<forall>(a, b) \<in> set (zip (row1 E) (row0 E)). \<not> a > b"
    using c len by (fastforce simp: set_zip)
  show ?thesis
    using map2_all [OF len a, of 1 0] map2_none [OF len [symmetric] b, of 1 0] len
    by (simp add: shape1_def)
qed

lemma map_nth_append_upt: "n = length xs \<Longrightarrow> map (\<lambda>k. (xs @ ys) ! k) [0..<n] = xs"
  by (rule nth_equalityI) (simp_all add: nth_append)

lemma select_cols_front:
  assumes "length xs = length ys"
  shows "select_cols (Tensor (xs @ ys) (ys @ xs)) [0..<length xs] = Tensor xs ys"
proof -
  have "map (\<lambda>k. (xs @ ys) ! k) [0..<length xs] = xs"
    by (rule map_nth_append_upt) simp
  moreover have "map (\<lambda>k. (ys @ xs) ! k) [0..<length xs] = ys"
    by (rule map_nth_append_upt) (simp add: assms)
  ultimately show ?thesis
    unfolding select_cols_def tensor.sel by (rule arg_cong2)
qed

lemma remove_bidirection_None:
  "remove_bidirection F None =
     (case index_cols F (nonzero (map2 (\<lambda>a b. if a > b then 1 else 0) (row0 F) (row1 F))) of
        Inl e \<Rightarrow> Inl e | Inr kept \<Rightarrow> Inr (kept, None))"
  unfolding remove_bidirection_def Let_def by simp

text \<open>
  Claim C4. For a canonical edge list \<open>E\<close> (every column has source above target),
  \<open>remove_bidirection (to_bidirection E)\<close> returns \<open>E\<close> itself: the same columns in the
  same order, hence the same set of columns.
\<close>

theorem remove_to_bidirection_roundtrip:
  assumes "wf_tensor E" "canonical E"
  shows "remove_bidirection (fst (to_bidirection E None)) None = Inr (E, None)"
proof -
  let ?F = "Tensor (row0 E @ row1 E) (row1 E @ row0 E)"
  have len: "length (row0 E) = length (row1 E)"
    using assms(1) by (simp add: wf_tensor_def)
  have ks: "nonzero (map2 (\<lambda>a b. if a > b then (1::int) else 0) (row0 ?F) (row1 ?F))
              = [0..<length (row0 E)]"
    unfolding tensor.sel canonical_mask [OF assms] nonzero_append_ones_zeros shape1_def ..
  have sel: "select_cols ?F [0..<length (row0 E)] = E"
    using select_cols_front [OF len] by simp
  have idx: "index_cols ?F [0..<length (row0 E)] = Inr E"
    unfolding index_cols_def sel by (simp add: len)
  show ?thesis
    unfolding to_bidirection_fst remove_bidirection_None ks idx by simp
qed

theorem remove_to_bidirection_roundtrip_witness:
  "wf_tensor (Tensor [3, 5] [1, 2]) \<and> canonical (Tensor [3, 5] [1, 2])
   \<and> fst (to_bidirection (Tensor [3, 5] [1, 2]) None) = Tensor [3, 5, 1, 2] [1, 2, 3, 5]
   \<and> remove_bidirection (Tensor [3, 5, 1, 2] [1, 2, 3, 5]) None
         = Inr (Tensor [3, 5] [1, 2], None)"
proof -
  have h1: "wf_tensor (Tensor [3, 5] [1, 2])"
    by (simp add: wf_tensor_def)
  have h2: "canonical (Tensor [3, 5] [1, 2])"
    by (simp add: canonical_def columns_def)
  have tb: "fst (to_bidirection (Tensor [3, 5] [1, 2]) None) = Tensor [3, 5, 1, 2] [1, 2, 3, 5]"
    by (simp add: to_bidirection_fst)
  show ?thesis
    using h1 h2 tb remove_to_bidirection_roundtrip [OF h1 h2] by simp
qed

lemma keep_set_in_range:
  "\<forall>k \<in> set (nonzero (map2 f xs ys)). k < length xs \<and> k < length ys"
  by (simp add: nonzero_def)

lemma remove_bidirection_Some:
  "remove_bidirection E (Some et) =
     (let keep_set = nonzero (map2 (\<lambda>a b. if a > b then 1 else 0) (row0 E) (row1 E))
      in if \<forall>k \<in> set keep_set. k < length et
         then Inr (select_cols E keep_set, Some (map (\<lambda>k. et ! k) keep_set))
         else Inl IndexError)"
proof -
  let ?ks = "nonzero (map2 (\<lambda>a b. if a > b then (1::int) else 0) (row0 E) (row1 E))"
  have "index_cols E ?ks = Inr (select_cols E ?ks)"
    unfolding index_cols_def using keep_set_in_range [of _ "row0 E" "row1 E"] by simp
  then show ?thesis
    unfolding remove_bidirection_def Let_def index_1d_def by simp
qed

text \<open>
  Claim C7, as amended. Neither operation compares the label length with the column
  count. \<open>to_bidirection\<close> always returns the doubled edge list with the label
  sequence joined to itself. \<open>remove_bidirection\<close> returns the kept columns with the
  labels at the kept column indices when every kept index is below the label length,
  and raises IndexError exactly when some kept index is not.
\<close>

theorem label_length_unchecked:
  "to_bidirection E (Some et) = (fst (to_bidirection E None), Some (et @ et))
   \<and> remove_bidirection E (Some et) =
       (let keep_set = nonzero (map2 (\<lambda>a b. if a > b then 1 else 0) (row0 E) (row1 E))
        in if \<forall>k \<in> set keep_set. k < length et
           then Inr (select_cols E keep_set, Some (map (\<lambda>k. et ! k) keep_set))
           else Inl IndexError)"
proof -
  have "to_bidirection E (Some et) = (fst (to_bidirection E None), Some (et @ et))"
    by (simp add: to_bidirection_def Let_def)
  then show ?thesis
    using remove_bidirection_Some [of E et] by simp
qed

lemma nonzero_Cons:
  "nonzero (x # xs) = (if x \<noteq> 0 then [0] else []) @ map Suc (nonzero xs)"
proof -
  have "[0..<length (x # xs)] = 0 # map Suc [0..<length xs]"
    by (simp add: upt_conv_Cons map_Suc_upt del: upt_Suc)
  then show ?thesis
    by (simp add: nonzero_def filter_map comp_def del: upt_Suc)
qed

lemma nonzero_Nil: "nonzero [] = []"
  by (simp add: nonzero_def)

text \<open>
  Claim C7 as stated fails: with two labels for one column \<open>remove_bidirection\<close>
  returns, and with no label for one column \<open>to_bidirection\<close> returns.
\<close>

theorem label_length_unchecked_counterexample:
  "length [7, 8 :: int] \<noteq> shape1 (Tensor [1] [0])
   \<and> remove_bidirection (Tensor [1] [0]) (Some [7, 8]) = Inr (Tensor [1] [0], Some [7])
   \<and> length ([] :: int list) \<noteq> shape1 (Tensor [1] [0])
   \<and> to_bidirection (Tensor [1] [0]) (Some []) = (Tensor [1, 0] [0, 1], Some [])"
  by (simp add: shape1_def remove_bidirection_def to_bidirection_def cat_cols_def
      index_cols_def index_1d_def select_cols_def nonzero_Cons nonzero_Nil)

theorem label_length_unchecked_witness:
  "remove_bidirection (Tensor [1, 0, 4] [0, 1, 2]) (Some [7, 8]) = Inl IndexError
   \<and> remove_bidirection (Tensor [1, 0, 4] [0, 1, 2]) (Some [7, 8, 9, 10])
       = Inr (Tensor [1, 4] [0, 2], Some [7, 9])
   \<and> to_bidirection (Tensor [1, 0, 4] [0, 1, 2]) (Some [7, 8])
       = (Tensor [1, 0, 4, 0, 1, 2] [0, 1, 2, 1, 0, 4], Some [7, 8, 7, 8])"
  using label_length_unchecked [of "Tensor [1, 0, 4] [0, 1, 2]" "[7, 8]"]
    label_length_unchecked [of "Tensor [1, 0, 4] [0, 1, 2]" "[7, 8, 9, 10]"]
  by (simp add: nonzero_Cons nonzero_Nil select_cols_def to_bidirection_fst)

section \<open>Properties of the coordinate converter\<close>

lemma bool_index_fst:
  "bool_index xs (map2 P xs ys) = map fst (filter (\<lambda>(a, b). P a b) (zip xs ys))"
proof (induction xs arbitrary: ys)
  case Nil
  then show ?case by (simp add: bool_index_def)
next
  case (Cons x xs)
  then show ?case by (cases ys) (simp_all add: bool_index_def)
qed

lemma bool_index_snd:
  "bool_index ys (map2 P xs ys) = map snd (filter (\<lambda>(a, b). P a b) (zip xs ys))"
proof (induction xs arbitrary: ys)
  case Nil
  then show ?case by (simp add: bool_index_def)
next
  case (Cons x xs)
  then show ?case by (cases ys) (simp_all add: bool_index_def)
qed

lemma columns_coo_bidirection:
  "columns (get_edge_index_from_coo mat True) =
     filter (\<lambda>(r, c). r > c) (zip (row mat) (col mat))
     @ map (\<lambda>(r, c). (c, r)) (filter (\<lambda>(r, c). r > c) (zip (row mat) (col mat)))"
proof -
  let ?h = "filter (\<lambda>(r, c). r > c) (zip (row mat) (col mat))"
  have "columns (get_edge_index_from_coo mat True)
          = zip (map fst ?h @ map snd ?h) (map snd ?h @ map fst ?h)"
    by (simp add: get_edge_index_from_coo_def Let_def cat_cols_def columns_def
        bool_index_fst bool_index_snd)
  also have "\<dots> = zip (map fst ?h) (map snd ?h) @ zip (map snd ?h) (map fst ?h)"
    by simp
  also have "zip (map fst ?h) (map snd ?h) = ?h"
    by (rule zip_map_fst_snd)
  also have "zip (map snd ?h) (map fst ?h) = map (\<lambda>(r, c). (c, r)) ?h"
    by (simp add: zip_map_map zip_same_conv_map case_prod_beta)
  finally show ?thesis .
qed

text \<open>
  Claim C10. With \<open>bidirection = True\<close> no column of the output of
  \<open>get_edge_index_from_coo\<close> is a self-loop: every output column \<open>(u, v)\<close> has
  \<open>u \<noteq> v\<close>, and it or its reversal is an entry of the matrix. So a diagonal entry
  of the input appears in the output in neither direction.
\<close>

theorem coo_bidirection_no_self_loop:
  "\<forall>(u, v) \<in> set (columns (get_edge_index_from_coo mat True)).
     u \<noteq> v
     \<and> ((u, v) \<in> set (zip (row mat) (col mat)) \<or> (v, u) \<in> set (zip (row mat) (col mat)))"
  unfolding columns_coo_bidirection by auto

theorem coo_bidirection_no_self_loop_witness:
  "columns (get_edge_index_from_coo \<lparr>row = [0, 1, 2], col = [0, 0, 2], data = [1, 1, 1]\<rparr> True)
     = [(1, 0), (0, 1)]"
proof -
  have c: "columns (get_edge_index_from_coo
             \<lparr>row = [0, 1, 2], col = [0, 0, 2], data = [1, 1, 1]\<rparr> True) = [(1, 0), (0, 1)]"
    by (simp add: columns_coo_bidirection)
  show ?thesis
    using coo_bidirection_no_self_loop [of "\<lparr>row = [0, 1, 2], col = [0, 0, 2], data = [1, 1, 1]\<rparr>"]
    unfolding c by simp
qed

section \<open>Properties of the store-level operation\<close>

lemma to_bidirection_st_eq:
  assumes "edge_index < length s"
  shows "to_bidirection_st s edge_index edge_type =
           (s @ [Tensor (row1 (s ! edge_index)) (row0 (s ! edge_index)),
                 fst (to_bidirection (s ! edge_index) edge_type)],
            Suc (length s), snd (to_bidirection (s ! edge_index) edge_type))"
  using assms
  by (cases edge_type)
    (simp_all add: to_bidirection_st_def clone_def assign_row_def read_view_def cat_st_def
      Let_def nth_append to_bidirection_def list_update_append)

text \<open>
  Claim C8. \<open>to_bidirection\<close> leaves the caller's edge list as it was: after the call
  the tensor at the address \<open>edge_index\<close>, and every tensor the store held before,
  is unchanged; the result lives at a fresh address, different from \<open>edge_index\<close>,
  and holds what the value-level \<open>to_bidirection\<close> computes.
\<close>

theorem to_bidirection_no_mutation:
  assumes "edge_index < length s"
  shows "case to_bidirection_st s edge_index edge_type of
           (s', out, labels) \<Rightarrow>
             s' ! edge_index = s ! edge_index
             \<and> take (length s) s' = s
             \<and> length s \<le> out \<and> out < length s' \<and> out \<noteq> edge_index
             \<and> (s' ! out, labels) = to_bidirection (s ! edge_index) edge_type"
  unfolding to_bidirection_st_eq [OF assms] using assms by (simp add: nth_append)

theorem to_bidirection_no_mutation_witness:
  "(0::nat) < length [Tensor [3, 5] [1, 2]]
   \<and> to_bidirection_st [Tensor [3, 5] [1, 2]] 0 None
       = ([Tensor [3, 5] [1, 2], Tensor [1, 2] [3, 5], Tensor [3, 5, 1, 2] [1, 2, 3, 5]], 2, None)"
proof -
  have h: "(0::nat) < length [Tensor [3, 5] [1, 2]]" by simp
  have e: "to_bidirection_st [Tensor [3, 5] [1, 2]] 0 None
       = ([Tensor [3, 5] [1, 2], Tensor [1, 2] [3, 5], Tensor [3, 5, 1, 2] [1, 2, 3, 5]], 2, None)"
    by (simp add: to_bidirection_st_def clone_def assign_row_def read_view_def cat_st_def
      Let_def cat_cols_def)
  show ?thesis
    using h e to_bidirection_no_mutation [OF h, of None] by simp
qed

text \<open>A row assignment to the tensor a view reads from does change that tensor.\<close>

lemma assign_row_in_place:
  "assign_row [Tensor [3, 5] [1, 2]] 0 0 (0, 1) = [Tensor [1, 2] [1, 2]]"
  by (simp add: assign_row_def read_view_def)

section \<open>Properties of the splitter\<close>

subsection \<open>What the loop and the call return\<close>

lemma nonzero_bound: "\<forall>k \<in> set (nonzero m). k < length m"
  by (simp add: nonzero_def)

lemma index_cols_nonzero:
  assumes "wf_tensor idx" "length m = shape1 idx"
  shows "index_cols idx (nonzero m) = Inr (select_cols idx (nonzero m))"
  using assms nonzero_bound [of m] by (simp add: index_cols_def wf_tensor_def shape1_def)

lemma binomial_1_ok: "0 \<le> p \<Longrightarrow> p \<le> 1 \<Longrightarrow> binomial_1 p n outcome = Inr outcome"
  by (simp add: binomial_1_def)

lemma process_loop_step:
  assumes "0 \<le> p" "p \<le> 1" "wf_tensor idx" "length (rng i) = shape1 idx"
  shows "process_loop p rng i (idx # rest) st =
           process_loop p rng (Suc i) rest
             \<lparr>train_list = train_list st @ [select_cols idx (train_set_of rng i)],
              test_list = test_list st @ [select_cols idx (test_set_of rng i)],
              train_label_list =
                train_label_list st @ [replicate (2 * length (train_set_of rng i)) (int i)],
              test_label_list =
                test_label_list st @ [replicate (2 * length (test_set_of rng i)) (int i)]\<rparr>"
proof -
  have a: "index_cols idx (nonzero (rng i)) = Inr (select_cols idx (nonzero (rng i)))"
    by (rule index_cols_nonzero) (use assms in simp_all)
  have b: "index_cols idx (nonzero (map (\<lambda>x. 1 - x) (rng i)))
             = Inr (select_cols idx (nonzero (map (\<lambda>x. 1 - x) (rng i))))"
    by (rule index_cols_nonzero) (use assms in simp_all)
  show ?thesis
    by (simp add: binomial_1_ok assms(1,2) a b Let_def train_set_of_def test_set_of_def)
qed

lemma process_loop_ok:
  assumes "0 \<le> p" "p \<le> 1"
    and "\<forall>(j, idx) \<in> set (enumerate i raw). wf_tensor idx \<and> length (rng j) = shape1 idx"
  shows "process_loop p rng i raw st =
           Inr \<lparr>train_list = train_list st
                   @ map (\<lambda>(j, idx). select_cols idx (train_set_of rng j)) (enumerate i raw),
                test_list = test_list st
                   @ map (\<lambda>(j, idx). select_cols idx (test_set_of rng j)) (enumerate i raw),
                train_label_list = train_label_list st
                   @ map (\<lambda>(j, idx). replicate (2 * length (train_set_of rng j)) (int j))
                       (enumerate i raw),
                test_label_list = test_label_list st
                   @ map (\<lambda>(j, idx). replicate (2 * length (test_set_of rng j)) (int j))
                       (enumerate i raw)\<rparr>"
  using assms(3)
proof (induction raw arbitrary: i st)
  case Nil
  show ?case by simp
next
  case (Cons idx rest)
  have hd: "wf_tensor idx" "length (rng i) = shape1 idx"
    using Cons.prems by simp_all
  have tl: "\<forall>(j, idx) \<in> set (enumerate (Suc i) rest).
              wf_tensor idx \<and> length (rng j) = shape1 idx"
    using Cons.prems by simp
  show ?case
    unfolding process_loop_step [where rng = rng and i = i, OF assms(1,2) hd] Cons.IH [OF tl]
    by simp
qed


lemma draws_values:
  assumes "draws_ok p raw rng" "i < length raw"
  shows "length (rng i) = shape1 (raw ! i)"
    and "\<forall>x \<in> set (rng i). x = 0 \<or> x = 1"
proof -
  have b: "binomial_outcome p (shape1 (raw ! i)) (rng i)"
    using assms by (simp add: draws_ok_def)
  then show "length (rng i) = shape1 (raw ! i)"
    by (simp add: binomial_outcome_def)
  show "\<forall>x \<in> set (rng i). x = 0 \<or> x = 1"
  proof
    fix x assume "x \<in> set (rng i)"
    with b have "0 < bernoulli_pmf p x"
      by (simp add: binomial_outcome_def)
    then show "x = 0 \<or> x = 1"
      by (auto simp: bernoulli_pmf_def split: if_splits)
  qed
qed

lemma loop_pre:
  assumes "wf_input raw" "draws_ok p raw rng"
  shows "\<forall>(j, idx) \<in> set (enumerate 0 raw). wf_tensor idx \<and> length (rng j) = shape1 idx"
proof -
  have "wf_tensor (raw ! k) \<and> length (rng k) = shape1 (raw ! k)" if "k < length raw" for k
    using that assms draws_values(1) [OF assms(2) that] by (simp add: wf_input_def)
  then show ?thesis
    by (auto simp: in_set_conv_nth nth_enumerate_eq)
qed

lemma process_edges_ok:
  assumes "0 \<le> p" "p \<le> 1" "raw \<noteq> []" "wf_input raw" "draws_ok p raw rng"
  shows "process_edges raw p rng =
           Inr \<lparr>train_edge_idx = cat_cols (segments (train_set_of rng) raw),
                train_et = concat (seg_labels (train_set_of rng) raw),
                train_range = get_range_list (segments (train_set_of rng) raw),
                test_edge_idx = cat_cols (segments (test_set_of rng) raw),
                test_et = concat (seg_labels (test_set_of rng) raw),
                test_range = get_range_list (segments (test_set_of rng) raw)\<rparr>"
proof -
  have ne: "enumerate 0 raw \<noteq> []"
    using assms(3) by (cases raw) simp_all
  show ?thesis
    unfolding process_edges_def process_loop_ok [OF assms(1,2) loop_pre [OF assms(4,5)]]
    using ne
    by (simp add: Let_def torch_cat_def torch_cat_1d_def segments_def seg_labels_def
        comp_def split_def)
qed

subsection \<open>Range tables and slices\<close>

lemma seg_start_0: "seg_start ts 0 = 0"
  by (simp add: seg_start_def)

lemma seg_start_Suc:
  "i < length ts \<Longrightarrow> seg_start ts (Suc i) = seg_start ts i + shape1 (ts ! i)"
  by (simp add: seg_start_def take_Suc_conv_app_nth)

lemma seg_start_Cons: "seg_start (t # ts) (Suc i) = shape1 t + seg_start ts i"
  by (simp add: seg_start_def)

lemma shape1_fun: "shape1 = (\<lambda>t. length (row0 t))"
  by (rule ext) (simp add: shape1_def)

lemma shape1_cat_cols: "shape1 (cat_cols ts) = sum_list (map shape1 ts)"
  by (simp add: shape1_fun cat_cols_def length_concat comp_def)

lemma seg_start_all: "seg_start ts (length ts) = shape1 (cat_cols ts)"
  by (simp add: seg_start_def shape1_cat_cols)

lemma get_range_loop_eq:
  "get_range_loop s ts tmp =
     tmp @ map (\<lambda>i. (s + seg_start ts i, s + seg_start ts i + shape1 (ts ! i))) [0..<length ts]"
proof (induction ts arbitrary: s tmp)
  case Nil
  show ?case by simp
next
  case (Cons t ts)
  show ?case
    by (simp add: Cons.IH map_upt_Suc seg_start_0 seg_start_Cons add.assoc del: upt_Suc)
qed

lemma get_range_list_nth:
  assumes "i < length ts"
  shows "get_range_list ts ! i = (seg_start ts i, seg_start ts i + shape1 (ts ! i))"
  using assms by (simp add: get_range_list_def get_range_loop_eq)

lemma length_get_range_list: "length (get_range_list ts) = length ts"
  by (simp add: get_range_list_def get_range_loop_eq)

lemma concat_slice:
  "i < length xss \<Longrightarrow>
     take (length (xss ! i)) (drop (sum_list (map length (take i xss))) (concat xss)) = xss ! i"
proof (induction xss arbitrary: i)
  case Nil
  then show ?case by simp
next
  case (Cons xs xss)
  then show ?case by (cases i) simp_all
qed

lemma slice_cat_cols:
  assumes "\<forall>t \<in> set ts. wf_tensor t" "i < length ts"
  shows "slice_cols (cat_cols ts) (seg_start ts i) (seg_start ts i + shape1 (ts ! i)) = ts ! i"
proof -
  have s0: "seg_start ts i = sum_list (map length (take i (map row0 ts)))"
    by (simp add: seg_start_def take_map comp_def shape1_fun)
  have "map (\<lambda>t. length (row0 t)) (take i ts) = map (\<lambda>t. length (row1 t)) (take i ts)"
    using assms(1) by (auto simp: wf_tensor_def dest: in_set_takeD)
  then have "sum_list (map (\<lambda>t. length (row0 t)) (take i ts))
               = sum_list (map (\<lambda>t. length (row1 t)) (take i ts))"
    by (rule arg_cong)
  then have s1: "seg_start ts i = sum_list (map length (take i (map row1 ts)))"
    by (simp add: seg_start_def take_map comp_def shape1_fun)
  have l0: "shape1 (ts ! i) = length (map row0 ts ! i)"
    using assms(2) by (simp add: shape1_def)
  have l1: "shape1 (ts ! i) = length (map row1 ts ! i)"
    using assms by (simp add: shape1_def wf_tensor_def)
  have r0: "take (shape1 (ts ! i)) (drop (seg_start ts i) (concat (map row0 ts))) = row0 (ts ! i)"
    unfolding s0 l0 using concat_slice [of i "map row0 ts"] assms(2) by simp
  have r1: "take (shape1 (ts ! i)) (drop (seg_start ts i) (concat (map row1 ts))) = row1 (ts ! i)"
    unfolding s1 l1 using concat_slice [of i "map row1 ts"] assms(2) by simp
  show ?thesis
    by (simp add: slice_cols_def cat_cols_def r0 r1)
qed

lemma slice_concat_labels:
  assumes "length ls = length ts" "\<forall>i < length ts. length (ls ! i) = shape1 (ts ! i)"
    "i < length ts"
  shows "slice_1d (concat ls) (seg_start ts i) (seg_start ts i + shape1 (ts ! i)) = ls ! i"
proof -
  have "map length (take i ls) = map shape1 (take i ts)"
    using assms by (auto intro!: nth_equalityI)
  then have s: "seg_start ts i = sum_list (map length (take i ls))"
    by (simp add: seg_start_def)
  have l: "shape1 (ts ! i) = length (ls ! i)"
    using assms by simp
  show ?thesis
    unfolding slice_1d_def s l using concat_slice [of i ls] assms by simp
qed

subsection \<open>Segments\<close>

lemma set_nonzero: "set (nonzero m) = {k. k < length m \<and> m ! k \<noteq> 0}"
  by (auto simp: nonzero_def)

lemma sorted_nonzero: "sorted_wrt (<) (nonzero m)"
  unfolding nonzero_def by (rule sorted_wrt_filter) (rule sorted_wrt_upt)

lemma distinct_nonzero: "distinct (nonzero m)"
  by (simp add: nonzero_def)

lemma length_segments: "length (segments sets raw) = length raw"
  by (simp add: segments_def)

lemma nth_segments:
  "i < length raw \<Longrightarrow>
     segments sets raw ! i = fst (to_bidirection (select_cols (raw ! i) (sets i)) None)"
  by (simp add: segments_def nth_enumerate_eq)

lemma length_seg_labels: "length (seg_labels sets raw) = length raw"
  by (simp add: seg_labels_def)

lemma nth_seg_labels:
  "i < length raw \<Longrightarrow> seg_labels sets raw ! i = replicate (2 * length (sets i)) (int i)"
  by (simp add: seg_labels_def nth_enumerate_eq)

lemma wf_select_cols: "wf_tensor (select_cols t ks)"
  by (simp add: wf_tensor_def select_cols_def)

lemma shape1_select_cols: "shape1 (select_cols t ks) = length ks"
  by (simp add: shape1_def select_cols_def)

lemma wf_bidirection: "wf_tensor t \<Longrightarrow> wf_tensor (fst (to_bidirection t None))"
  by (simp add: to_bidirection_fst wf_tensor_def)

lemma shape1_bidirection:
  "wf_tensor t \<Longrightarrow> shape1 (fst (to_bidirection t None)) = 2 * shape1 t"
  by (simp add: to_bidirection_fst wf_tensor_def shape1_def)

lemma wf_segments: "\<forall>t \<in> set (segments sets raw). wf_tensor t"
  by (auto simp: segments_def intro!: wf_bidirection wf_select_cols)

lemma shape1_segments:
  "i < length raw \<Longrightarrow> shape1 (segments sets raw ! i) = 2 * length (sets i)"
  by (simp add: nth_segments shape1_bidirection wf_select_cols shape1_select_cols)

lemma labels_match_segments:
  "\<forall>i < length (segments sets raw).
     length (seg_labels sets raw ! i) = shape1 (segments sets raw ! i)"
  by (simp add: length_segments nth_seg_labels shape1_segments)

lemma length_concat_labels:
  "length (concat (seg_labels sets raw)) = shape1 (cat_cols (segments sets raw))"
proof -
  have "map length (seg_labels sets raw) = map shape1 (segments sets raw)"
    by (rule nth_equalityI)
      (simp_all add: length_segments length_seg_labels nth_seg_labels shape1_segments)
  then show ?thesis
    by (simp add: length_concat shape1_cat_cols)
qed

lemma wf_cat_cols: "\<forall>t \<in> set ts. wf_tensor t \<Longrightarrow> wf_tensor (cat_cols ts)"
proof -
  assume "\<forall>t \<in> set ts. wf_tensor t"
  then have "map (\<lambda>t. length (row0 t)) ts = map (\<lambda>t. length (row1 t)) ts"
    by (simp add: wf_tensor_def)
  then have "sum_list (map (\<lambda>t. length (row0 t)) ts) = sum_list (map (\<lambda>t. length (row1 t)) ts)"
    by (rule arg_cong)
  then show ?thesis
    by (simp add: wf_tensor_def cat_cols_def length_concat comp_def)
qed

text \<open>What one split of the output satisfies, for either family of index sets.\<close>

lemma split_aligned:
  assumes "i < length raw"
  shows "length (get_range_list (segments sets raw)) = length raw"
    and "fst (get_range_list (segments sets raw) ! 0) = 0"
    and "snd (get_range_list (segments sets raw) ! i)
           = fst (get_range_list (segments sets raw) ! i) + 2 * length (sets i)"
    and "slice_cols (cat_cols (segments sets raw))
           (fst (get_range_list (segments sets raw) ! i))
           (snd (get_range_list (segments sets raw) ! i))
         = fst (to_bidirection (select_cols (raw ! i) (sets i)) None)"
    and "slice_1d (concat (seg_labels sets raw))
           (fst (get_range_list (segments sets raw) ! i))
           (snd (get_range_list (segments sets raw) ! i))
         = replicate (2 * length (sets i)) (int i)"
    and "Suc i < length raw \<Longrightarrow>
           fst (get_range_list (segments sets raw) ! Suc i)
             = snd (get_range_list (segments sets raw) ! i)"
    and "Suc i = length raw \<Longrightarrow>
           snd (get_range_list (segments sets raw) ! i) = shape1 (cat_cols (segments sets raw))"
proof -
  let ?ts = "segments sets raw"
  have i: "i < length ?ts"
    using assms by (simp add: length_segments)
  then have z: "0 < length ?ts"
    by (rule le_less_trans [OF le0])
  have ri: "get_range_list ?ts ! i = (seg_start ?ts i, seg_start ?ts i + shape1 (?ts ! i))"
    by (rule get_range_list_nth [OF i])
  show "length (get_range_list ?ts) = length raw"
    by (simp add: length_get_range_list length_segments)
  show "fst (get_range_list ?ts ! 0) = 0"
    by (simp add: get_range_list_nth [OF z] seg_start_0)
  show "snd (get_range_list ?ts ! i) = fst (get_range_list ?ts ! i) + 2 * length (sets i)"
    by (simp add: ri shape1_segments [OF assms])
  show "slice_cols (cat_cols ?ts) (fst (get_range_list ?ts ! i)) (snd (get_range_list ?ts ! i))
          = fst (to_bidirection (select_cols (raw ! i) (sets i)) None)"
    unfolding ri fst_conv snd_conv slice_cat_cols [OF wf_segments i]
    by (rule nth_segments [OF assms])
  show "slice_1d (concat (seg_labels sets raw))
          (fst (get_range_list ?ts ! i)) (snd (get_range_list ?ts ! i))
        = replicate (2 * length (sets i)) (int i)"
    unfolding ri fst_conv snd_conv
    using slice_concat_labels [where ls = "seg_labels sets raw" and ts = ?ts and i = i]
      labels_match_segments [of sets raw] i
    by (simp add: length_segments length_seg_labels nth_seg_labels [OF assms])
  show "fst (get_range_list ?ts ! Suc i) = snd (get_range_list ?ts ! i)"
    if "Suc i < length raw"
  proof -
    have "Suc i < length ?ts"
      using that by (simp add: length_segments)
    then show ?thesis
      by (simp add: get_range_list_nth ri seg_start_Suc [OF i])
  qed
  show "snd (get_range_list ?ts ! i) = shape1 (cat_cols ?ts)" if "Suc i = length raw"
  proof -
    have "seg_start ?ts (length ?ts) = seg_start ?ts i + shape1 (?ts ! i)"
      using seg_start_Suc [OF i] that by (simp add: length_segments)
    then show ?thesis
      by (simp add: ri seg_start_all)
  qed
qed

subsection \<open>The claims about the split\<close>

lemma index_sets_partition:
  assumes "\<forall>x \<in> set m. x = 0 \<or> x = (1::int)"
  shows "set (nonzero m) \<inter> set (nonzero (map (\<lambda>x. 1 - x) m)) = {}"
    and "set (nonzero m) \<union> set (nonzero (map (\<lambda>x. 1 - x) m)) = {0..<length m}"
    and "set (nonzero m) = {k. k < length m \<and> m ! k = 1}"
    and "set (nonzero (map (\<lambda>x. 1 - x) m)) = {k. k < length m \<and> m ! k = 0}"
proof -
  have v: "m ! k = 0 \<or> m ! k = 1" if "k < length m" for k
    using assms that by (simp add: all_set_conv_all_nth)
  show "set (nonzero m) \<inter> set (nonzero (map (\<lambda>x. 1 - x) m)) = {}"
    using v by (fastforce simp: set_nonzero)
  show "set (nonzero m) \<union> set (nonzero (map (\<lambda>x. 1 - x) m)) = {0..<length m}"
    using v by (fastforce simp: set_nonzero)
  show "set (nonzero m) = {k. k < length m \<and> m ! k = 1}"
    using v by (fastforce simp: set_nonzero)
  show "set (nonzero (map (\<lambda>x. 1 - x) m)) = {k. k < length m \<and> m ! k = 0}"
    using v by (fastforce simp: set_nonzero)
qed

text \<open>
  Claim C1. For every input list and every outcome of the draws, the loop of
  \<open>process_edges\<close> returns, and for each type \<open>i\<close> the train and the test tensor are
  the columns of \<open>raw ! i\<close> at two index lists without repetition that are disjoint
  and together are exactly \<open>{0, ..., m\<^sub>i - 1}\<close>.
\<close>

theorem train_test_index_partition:
  assumes "0 \<le> p" "p \<le> 1" "wf_input raw" "draws_ok p raw rng" "i < length raw"
  shows "\<exists>st. process_loop p rng 0 raw
                \<lparr>train_list = [], test_list = [], train_label_list = [], test_label_list = []\<rparr>
                = Inr st
           \<and> train_list st ! i = select_cols (raw ! i) (train_set_of rng i)
           \<and> test_list st ! i = select_cols (raw ! i) (test_set_of rng i)
           \<and> distinct (train_set_of rng i) \<and> distinct (test_set_of rng i)
           \<and> set (train_set_of rng i) \<inter> set (test_set_of rng i) = {}
           \<and> set (train_set_of rng i) \<union> set (test_set_of rng i) = {0..<shape1 (raw ! i)}"
proof -
  have v: "\<forall>x \<in> set (rng i). x = 0 \<or> x = 1"
    by (rule draws_values(2) [OF assms(4,5)])
  have len: "length (rng i) = shape1 (raw ! i)"
    by (rule draws_values(1) [OF assms(4,5)])
  show ?thesis
    unfolding process_loop_ok [OF assms(1,2) loop_pre [OF assms(3,4)]]
    using assms(5) index_sets_partition(1,2) [OF v] len
    by (simp add: nth_enumerate_eq train_set_of_def test_set_of_def distinct_nonzero)
qed

lemma columns_select_cols:
  assumes "wf_tensor t" "\<forall>k \<in> set ks. k < shape1 t"
  shows "columns (select_cols t ks) = map (\<lambda>k. columns t ! k) ks"
proof -
  have "zip (map (\<lambda>k. row0 t ! k) ks) (map (\<lambda>k. row1 t ! k) ks)
          = map (\<lambda>k. (row0 t ! k, row1 t ! k)) ks"
    by (simp add: zip_map_map zip_same_conv_map)
  also have "\<dots> = map (\<lambda>k. zip (row0 t) (row1 t) ! k) ks"
    using assms by (simp add: wf_tensor_def shape1_def)
  finally show ?thesis
    by (simp add: columns_def select_cols_def)
qed

lemma columns_segment:
  assumes "wf_tensor t" "\<forall>k \<in> set ks. k < shape1 t"
  shows "columns (fst (to_bidirection (select_cols t ks) None))
           = map (\<lambda>k. columns t ! k) ks @ map (\<lambda>k. prod.swap (columns t ! k)) ks"
  unfolding columns_to_bidirection [OF wf_select_cols] columns_select_cols [OF assms]
  by (simp add: comp_def prod.swap_def split_def)

text \<open>
  Claim C2. The range tables are aligned with the flat tensors. Each table has one
  entry per type, the first starts at 0, entry \<open>i\<close> ends where entry \<open>i + 1\<close> starts
  (the last ends at the column count of the flat tensor), the columns \<open>[s, e)\<close> of
  the flat tensor are exactly type \<open>i\<close>'s bidirectional segment, and \<open>e - s\<close> is twice
  the number of columns the mask gave to that split.
\<close>

theorem process_edges_ranges_aligned:
  assumes "0 \<le> p" "p \<le> 1" "raw \<noteq> []" "wf_input raw" "draws_ok p raw rng" "i < length raw"
  shows "\<exists>r. process_edges raw p rng = Inr r
           \<and> length (train_range r) = length raw \<and> length (test_range r) = length raw
           \<and> fst (train_range r ! 0) = 0 \<and> fst (test_range r ! 0) = 0
           \<and> (case train_range r ! i of (s, e) \<Rightarrow>
                 e = s + 2 * length (train_set_of rng i)
                 \<and> slice_cols (train_edge_idx r) s e
                     = fst (to_bidirection (select_cols (raw ! i) (train_set_of rng i)) None)
                 \<and> (if Suc i < length raw then fst (train_range r ! Suc i) = e
                     else shape1 (train_edge_idx r) = e))
           \<and> (case test_range r ! i of (s, e) \<Rightarrow>
                 e = s + 2 * length (test_set_of rng i)
                 \<and> slice_cols (test_edge_idx r) s e
                     = fst (to_bidirection (select_cols (raw ! i) (test_set_of rng i)) None)
                 \<and> (if Suc i < length raw then fst (test_range r ! Suc i) = e
                     else shape1 (test_edge_idx r) = e))"
proof -
  have last: "Suc i = length raw" if "\<not> Suc i < length raw"
    using that assms(6) by simp
  note tr = split_aligned [OF assms(6), of "train_set_of rng"]
  note te = split_aligned [OF assms(6), of "test_set_of rng"]
  show ?thesis
    unfolding process_edges_ok [OF assms(1-5)]
    using tr(1,2,3,4,6) te(1,2,3,4,6) tr(7) [OF last] te(7) [OF last]
    by (simp add: split_def)
qed

text \<open>
  Claim C5. In every output the train (test) label sequence is as long as the train
  (test) edge tensor has columns, and every label in type \<open>i\<close>'s segment is \<open>i\<close>.
\<close>

theorem process_edges_labels_aligned:
  assumes "0 \<le> p" "p \<le> 1" "raw \<noteq> []" "wf_input raw" "draws_ok p raw rng" "i < length raw"
  shows "\<exists>r. process_edges raw p rng = Inr r
           \<and> wf_tensor (train_edge_idx r) \<and> wf_tensor (test_edge_idx r)
           \<and> length (train_et r) = shape1 (train_edge_idx r)
           \<and> length (test_et r) = shape1 (test_edge_idx r)
           \<and> (case train_range r ! i of (s, e) \<Rightarrow>
                 slice_1d (train_et r) s e = replicate (e - s) (int i))
           \<and> (case test_range r ! i of (s, e) \<Rightarrow>
                 slice_1d (test_et r) s e = replicate (e - s) (int i))"
proof -
  note tr = split_aligned [OF assms(6), of "train_set_of rng"]
  note te = split_aligned [OF assms(6), of "test_set_of rng"]
  show ?thesis
    unfolding process_edges_ok [OF assms(1-5)]
    using tr(3,5) te(3,5)
    by (simp add: split_def length_concat_labels wf_cat_cols wf_segments)
qed

text \<open>
  Claim C9. Type \<open>i\<close>'s segment of the flat train (test) tensor keeps the column
  order: first the selected columns of \<open>raw ! i\<close> in increasing column index (the
  train indices are those with mask 1, the test indices those with mask 0), then the
  same columns with their endpoints exchanged, in the same order.
\<close>

theorem process_edges_segment_order:
  assumes "0 \<le> p" "p \<le> 1" "raw \<noteq> []" "wf_input raw" "draws_ok p raw rng" "i < length raw"
  shows "\<exists>r. process_edges raw p rng = Inr r
           \<and> sorted_wrt (<) (train_set_of rng i) \<and> sorted_wrt (<) (test_set_of rng i)
           \<and> set (train_set_of rng i) = {k. k < shape1 (raw ! i) \<and> rng i ! k = 1}
           \<and> set (test_set_of rng i) = {k. k < shape1 (raw ! i) \<and> rng i ! k = 0}
           \<and> (case train_range r ! i of (s, e) \<Rightarrow>
                 columns (slice_cols (train_edge_idx r) s e)
                   = map (\<lambda>k. columns (raw ! i) ! k) (train_set_of rng i)
                     @ map (\<lambda>k. prod.swap (columns (raw ! i) ! k)) (train_set_of rng i))
           \<and> (case test_range r ! i of (s, e) \<Rightarrow>
                 columns (slice_cols (test_edge_idx r) s e)
                   = map (\<lambda>k. columns (raw ! i) ! k) (test_set_of rng i)
                     @ map (\<lambda>k. prod.swap (columns (raw ! i) ! k)) (test_set_of rng i))"
proof -
  have wf: "wf_tensor (raw ! i)"
    using assms(4,6) by (simp add: wf_input_def)
  have len: "length (rng i) = shape1 (raw ! i)"
    by (rule draws_values(1) [OF assms(5,6)])
  have v: "\<forall>x \<in> set (rng i). x = 0 \<or> x = 1"
    by (rule draws_values(2) [OF assms(5,6)])
  have a: "\<forall>k \<in> set (train_set_of rng i). k < shape1 (raw ! i)"
    using nonzero_bound [of "rng i"] len by (simp add: train_set_of_def)
  have b: "\<forall>k \<in> set (test_set_of rng i). k < shape1 (raw ! i)"
    using nonzero_bound [of "map (\<lambda>x. 1 - x) (rng i)"] len by (simp add: test_set_of_def)
  note tr = split_aligned(4) [OF assms(6), of "train_set_of rng"]
  note te = split_aligned(4) [OF assms(6), of "test_set_of rng"]
  have sa: "set (train_set_of rng i) = {k. k < shape1 (raw ! i) \<and> rng i ! k = 1}"
    using index_sets_partition(3) [OF v] len by (simp add: train_set_of_def)
  have sb: "set (test_set_of rng i) = {k. k < shape1 (raw ! i) \<and> rng i ! k = 0}"
    using index_sets_partition(4) [OF v] len by (simp add: test_set_of_def)
  have so: "sorted_wrt (<) (train_set_of rng i)" "sorted_wrt (<) (test_set_of rng i)"
    by (simp_all add: train_set_of_def test_set_of_def sorted_nonzero)
  show ?thesis
    unfolding process_edges_ok [OF assms(1-5)]
    using so sa sb
    by (simp add: split_def tr te columns_segment [OF wf a] columns_segment [OF wf b])
qed

subsection \<open>The train fraction at and beyond its bounds\<close>

lemma process_edges_rejects_p:
  assumes "p < 0 \<or> 1 < p" "raw \<noteq> []"
  shows "process_edges raw p rng = Inl ValueError"
proof -
  obtain idx rest where raw: "raw = idx # rest"
    using assms(2) by (cases raw) simp_all
  have "binomial_1 p (shape1 idx) (rng 0) = Inl ValueError"
    using assms(1) by (simp add: binomial_1_def)
  then show ?thesis
    by (simp add: process_edges_def raw)
qed

lemma process_edges_empty: "process_edges [] p rng = Inl RuntimeError"
  by (simp add: process_edges_def torch_cat_def get_range_list_def)

lemma all_same_replicate: "\<forall>x \<in> set xs. x = c \<Longrightarrow> xs = replicate (length xs) c"
  by (induction xs) simp_all

lemma draws_p1:
  assumes "draws_ok 1 raw rng" "i < length raw"
  shows "rng i = replicate (shape1 (raw ! i)) 1"
proof -
  have b: "binomial_outcome 1 (shape1 (raw ! i)) (rng i)"
    using assms by (simp add: draws_ok_def)
  then have "\<forall>x \<in> set (rng i). x = 1"
    by (auto simp: binomial_outcome_def bernoulli_pmf_def split: if_splits)
  then have "rng i = replicate (length (rng i)) 1"
    by (rule all_same_replicate)
  with b show ?thesis
    by (simp add: binomial_outcome_def)
qed

lemma draws_p0:
  assumes "draws_ok 0 raw rng" "i < length raw"
  shows "rng i = replicate (shape1 (raw ! i)) 0"
proof -
  have b: "binomial_outcome 0 (shape1 (raw ! i)) (rng i)"
    using assms by (simp add: draws_ok_def)
  then have "\<forall>x \<in> set (rng i). x = 0"
    by (auto simp: binomial_outcome_def bernoulli_pmf_def split: if_splits)
  then have "rng i = replicate (length (rng i)) 0"
    by (rule all_same_replicate)
  with b show ?thesis
    by (simp add: binomial_outcome_def)
qed

lemma nonzero_ones: "nonzero (replicate m 1) = [0..<m]"
  using nonzero_append_ones_zeros [of m 0] by simp

lemma nonzero_zeros: "nonzero (replicate m 0) = []"
  using nonzero_append_ones_zeros [of 0 m] by simp

lemma select_cols_all:
  assumes "wf_tensor t"
  shows "select_cols t [0..<shape1 t] = t"
proof -
  have l: "shape1 t = length (row1 t)"
    using assms by (simp add: wf_tensor_def shape1_def)
  have a: "map (\<lambda>k. row0 t ! k) [0..<shape1 t] = row0 t"
    unfolding shape1_def by (rule map_nth)
  have b: "map (\<lambda>k. row1 t ! k) [0..<shape1 t] = row1 t"
    unfolding l by (rule map_nth)
  show ?thesis
    unfolding select_cols_def a b by simp
qed

lemma segments_all:
  assumes "wf_input raw" "\<forall>i < length raw. sets i = [0..<shape1 (raw ! i)]"
  shows "segments sets raw = map (\<lambda>t. fst (to_bidirection t None)) raw"
    and "seg_labels sets raw
           = map (\<lambda>(i, t). replicate (2 * shape1 t) (int i)) (enumerate 0 raw)"
proof -
  show "segments sets raw = map (\<lambda>t. fst (to_bidirection t None)) raw"
    using assms
    by (intro nth_equalityI)
      (simp_all add: length_segments nth_segments select_cols_all wf_input_def)
  show "seg_labels sets raw
          = map (\<lambda>(i, t). replicate (2 * shape1 t) (int i)) (enumerate 0 raw)"
    using assms(2)
    by (intro nth_equalityI) (simp_all add: length_seg_labels nth_seg_labels nth_enumerate_eq)
qed

lemma segments_none:
  assumes "\<forall>i < length raw. sets i = []"
  shows "cat_cols (segments sets raw) = Tensor [] []"
    and "concat (seg_labels sets raw) = []"
    and "get_range_list (segments sets raw) = replicate (length raw) (0, 0)"
proof -
  have seg: "segments sets raw = replicate (length raw) (Tensor [] [])"
    using assms
    by (intro nth_equalityI)
      (simp_all add: length_segments nth_segments select_cols_def to_bidirection_fst)
  have lab: "seg_labels sets raw = replicate (length raw) []"
    using assms by (intro nth_equalityI) (simp_all add: length_seg_labels nth_seg_labels)
  show "cat_cols (segments sets raw) = Tensor [] []"
    by (simp add: seg cat_cols_def)
  show "concat (seg_labels sets raw) = []"
    by (simp add: lab)
  have st: "seg_start (replicate (length raw) (Tensor [] [])) i = 0" for i
    by (simp add: seg_start_def shape1_def)
  show "get_range_list (segments sets raw) = replicate (length raw) (0, 0)"
    unfolding seg
    by (intro nth_equalityI)
      (simp_all add: length_get_range_list get_range_list_nth st shape1_def)
qed

text \<open>
  Claim C6, as amended. \<open>process_edges\<close> has no check of \<open>p\<close> of its own, but the
  sampler has: on a non-empty input list, \<open>p < 0\<close> or \<open>p > 1\<close> makes the call raise
  ValueError. At \<open>p = 0\<close> the call returns the all-test split and at \<open>p = 1\<close> the
  all-train split; the other split has an empty tensor, no labels and the range
  \<open>(0, 0)\<close> for every type.
\<close>

theorem process_edges_boundary_p:
  assumes "raw \<noteq> []" "wf_input raw"
  shows "(p < 0 \<or> 1 < p \<longrightarrow> process_edges raw p rng = Inl ValueError)
       \<and> (p = 0 \<and> draws_ok p raw rng \<longrightarrow>
            process_edges raw p rng =
              Inr \<lparr>train_edge_idx = Tensor [] [], train_et = [],
                   train_range = replicate (length raw) (0, 0),
                   test_edge_idx = cat_cols (map (\<lambda>t. fst (to_bidirection t None)) raw),
                   test_et = concat (map (\<lambda>(i, t). replicate (2 * shape1 t) (int i))
                                       (enumerate 0 raw)),
                   test_range = get_range_list (map (\<lambda>t. fst (to_bidirection t None)) raw)\<rparr>)
       \<and> (p = 1 \<and> draws_ok p raw rng \<longrightarrow>
            process_edges raw p rng =
              Inr \<lparr>train_edge_idx = cat_cols (map (\<lambda>t. fst (to_bidirection t None)) raw),
                   train_et = concat (map (\<lambda>(i, t). replicate (2 * shape1 t) (int i))
                                        (enumerate 0 raw)),
                   train_range = get_range_list (map (\<lambda>t. fst (to_bidirection t None)) raw),
                   test_edge_idx = Tensor [] [], test_et = [],
                   test_range = replicate (length raw) (0, 0)\<rparr>)"
proof (intro conjI impI)
  assume "p < 0 \<or> 1 < p"
  then show "process_edges raw p rng = Inl ValueError"
    by (rule process_edges_rejects_p [OF _ assms(1)])
next
  assume a: "p = 0 \<and> draws_ok p raw rng"
  then have d: "draws_ok 0 raw rng" and p: "0 \<le> p" "p \<le> 1"
    by auto
  have tr: "\<forall>i < length raw. train_set_of rng i = []"
    by (simp add: train_set_of_def draws_p0 [OF d] nonzero_zeros)
  have te: "\<forall>i < length raw. test_set_of rng i = [0..<shape1 (raw ! i)]"
    by (simp add: test_set_of_def draws_p0 [OF d] nonzero_ones)
  show "process_edges raw p rng =
          Inr \<lparr>train_edge_idx = Tensor [] [], train_et = [],
               train_range = replicate (length raw) (0, 0),
               test_edge_idx = cat_cols (map (\<lambda>t. fst (to_bidirection t None)) raw),
               test_et = concat (map (\<lambda>(i, t). replicate (2 * shape1 t) (int i))
                                   (enumerate 0 raw)),
               test_range = get_range_list (map (\<lambda>t. fst (to_bidirection t None)) raw)\<rparr>"
    unfolding process_edges_ok [OF p assms a [THEN conjunct2]]
      segments_none [OF tr] segments_all [OF assms(2) te] ..
next
  assume a: "p = 1 \<and> draws_ok p raw rng"
  then have d: "draws_ok 1 raw rng" and p: "0 \<le> p" "p \<le> 1"
    by auto
  have tr: "\<forall>i < length raw. train_set_of rng i = [0..<shape1 (raw ! i)]"
    by (simp add: train_set_of_def draws_p1 [OF d] nonzero_ones)
  have te: "\<forall>i < length raw. test_set_of rng i = []"
    by (simp add: test_set_of_def draws_p1 [OF d] nonzero_zeros)
  show "process_edges raw p rng =
          Inr \<lparr>train_edge_idx = cat_cols (map (\<lambda>t. fst (to_bidirection t None)) raw),
               train_et = concat (map (\<lambda>(i, t). replicate (2 * shape1 t) (int i))
                                    (enumerate 0 raw)),
               train_range = get_range_list (map (\<lambda>t. fst (to_bidirection t None)) raw),
               test_edge_idx = Tensor [] [], test_et = [],
               test_range = replicate (length raw) (0, 0)\<rparr>"
    unfolding process_edges_ok [OF p assms a [THEN conjunct2]]
      segments_none [OF te] segments_all [OF assms(2) tr] ..
qed

subsection \<open>A run on two types\<close>

lemmas eval_defs =
  process_edges_def binomial_1_def Let_def nonzero_Cons nonzero_Nil index_cols_def
  select_cols_def to_bidirection_fst get_range_list_def shape1_def torch_cat_def
  torch_cat_1d_def cat_cols_def eval_nat_numeral

lemma example_split:
  "process_edges [Tensor [3, 5] [1, 2], Tensor [4] [0]] (1 / 2)
       (\<lambda>i. if i = 0 then [1, 0] else [1])
     = Inr \<lparr>train_edge_idx = Tensor [3, 1, 4, 0] [1, 3, 0, 4], train_et = [0, 0, 1, 1],
            train_range = [(0, 2), (2, 4)],
            test_edge_idx = Tensor [5, 2] [2, 5], test_et = [0, 0],
            test_range = [(0, 2), (2, 2)]\<rparr>"
  by (simp add: eval_defs)

lemma example_all_train:
  "process_edges [Tensor [3, 5] [1, 2], Tensor [4] [0]] 1
       (\<lambda>i. if i = 0 then [1, 1] else [1])
     = Inr \<lparr>train_edge_idx = Tensor [3, 5, 1, 2, 4, 0] [1, 2, 3, 5, 0, 4],
            train_et = [0, 0, 0, 0, 1, 1], train_range = [(0, 4), (4, 6)],
            test_edge_idx = Tensor [] [], test_et = [],
            test_range = [(0, 0), (0, 0)]\<rparr>"
  by (simp add: eval_defs)

lemma example_wf: "wf_input [Tensor [3, 5] [1, 2], Tensor [4] [0]]"
  by (simp add: wf_input_def wf_tensor_def)

lemma example_draws:
  "draws_ok (1 / 2) [Tensor [3, 5] [1, 2], Tensor [4] [0]] (\<lambda>i. if i = 0 then [1, 0] else [1])"
  by (simp add: draws_ok_def binomial_outcome_def bernoulli_pmf_def shape1_def
      less_Suc_eq nth_Cons')

lemma example_draws_1:
  "draws_ok 1 [Tensor [3, 5] [1, 2], Tensor [4] [0]] (\<lambda>i. if i = 0 then [1, 1] else [1])"
  by (simp add: draws_ok_def binomial_outcome_def bernoulli_pmf_def shape1_def
      less_Suc_eq nth_Cons')

text \<open>
  Claim C6 as stated fails: with \<open>p = 2\<close> and with \<open>p = -1\<close> the call raises
  ValueError instead of returning an all-train or all-test split.
\<close>

theorem process_edges_boundary_p_counterexample:
  "process_edges [Tensor [3, 5] [1, 2]] 2 (\<lambda>i. [1, 1]) = Inl ValueError
   \<and> process_edges [Tensor [3, 5] [1, 2]] (- 1) (\<lambda>i. [0, 0]) = Inl ValueError"
  by (simp add: process_edges_def binomial_1_def)

theorem train_test_index_partition_witness:
  "process_loop (1 / 2) (\<lambda>i. if i = 0 then [1, 0] else [1]) 0
       [Tensor [3, 5] [1, 2], Tensor [4] [0]]
       \<lparr>train_list = [], test_list = [], train_label_list = [], test_label_list = []\<rparr>
     = Inr \<lparr>train_list = [Tensor [3] [1], Tensor [4] [0]],
            test_list = [Tensor [5] [2], Tensor [] []],
            train_label_list = [[0, 0], [1, 1]], test_label_list = [[0, 0], []]\<rparr>
   \<and> train_set_of (\<lambda>i. if i = 0 then [1, 0] else [1]) 0 = [0]
   \<and> test_set_of (\<lambda>i. if i = 0 then [1, 0] else [1]) 0 = [1]
   \<and> set [0::nat] \<inter> set [1] = {}
   \<and> set [0::nat] \<union> set [1] = {0..<shape1 (Tensor [3, 5] [1, 2])}"
proof -
  have s: "train_set_of (\<lambda>i. if i = 0 then [1, 0] else [1]) 0 = [0]"
    "test_set_of (\<lambda>i. if i = 0 then [1, 0] else [1]) 0 = [1]"
    by (simp_all add: train_set_of_def test_set_of_def nonzero_Cons nonzero_Nil)
  have l: "process_loop (1 / 2) (\<lambda>i. if i = 0 then [1, 0] else [1]) 0
       [Tensor [3, 5] [1, 2], Tensor [4] [0]]
       \<lparr>train_list = [], test_list = [], train_label_list = [], test_label_list = []\<rparr>
     = Inr \<lparr>train_list = [Tensor [3] [1], Tensor [4] [0]],
            test_list = [Tensor [5] [2], Tensor [] []],
            train_label_list = [[0, 0], [1, 1]], test_label_list = [[0, 0], []]\<rparr>"
    by (simp add: eval_defs)
  show ?thesis
    using train_test_index_partition [OF _ _ example_wf example_draws, of 0]
    unfolding s l by simp
qed

theorem process_edges_ranges_aligned_witness:
  "process_edges [Tensor [3, 5] [1, 2], Tensor [4] [0]] (1 / 2)
       (\<lambda>i. if i = 0 then [1, 0] else [1])
     = Inr \<lparr>train_edge_idx = Tensor [3, 1, 4, 0] [1, 3, 0, 4], train_et = [0, 0, 1, 1],
            train_range = [(0, 2), (2, 4)],
            test_edge_idx = Tensor [5, 2] [2, 5], test_et = [0, 0],
            test_range = [(0, 2), (2, 2)]\<rparr>
   \<and> slice_cols (Tensor [3, 1, 4, 0] [1, 3, 0, 4]) 2 4
       = fst (to_bidirection (select_cols (Tensor [4] [0])
               (train_set_of (\<lambda>i. if i = 0 then [1, 0] else [1]) 1)) None)
   \<and> slice_cols (Tensor [5, 2] [2, 5]) 2 2
       = fst (to_bidirection (select_cols (Tensor [4] [0])
               (test_set_of (\<lambda>i. if i = 0 then [1, 0] else [1]) 1)) None)
   \<and> shape1 (Tensor [3, 1, 4, 0] [1, 3, 0, 4]) = 4"
  using process_edges_ranges_aligned [OF _ _ _ example_wf example_draws, of 1]
  unfolding example_split by simp

theorem process_edges_labels_aligned_witness:
  "process_edges [Tensor [3, 5] [1, 2], Tensor [4] [0]] (1 / 2)
       (\<lambda>i. if i = 0 then [1, 0] else [1])
     = Inr \<lparr>train_edge_idx = Tensor [3, 1, 4, 0] [1, 3, 0, 4], train_et = [0, 0, 1, 1],
            train_range = [(0, 2), (2, 4)],
            test_edge_idx = Tensor [5, 2] [2, 5], test_et = [0, 0],
            test_range = [(0, 2), (2, 2)]\<rparr>
   \<and> length [0, 0, 1, 1 :: int] = shape1 (Tensor [3, 1, 4, 0] [1, 3, 0, 4])
   \<and> length [0, 0 :: int] = shape1 (Tensor [5, 2] [2, 5])
   \<and> slice_1d [0, 0, 1, 1] 2 4 = replicate 2 1
   \<and> slice_1d [0, 0] 2 2 = []"
  using process_edges_labels_aligned [OF _ _ _ example_wf example_draws, of 1]
  unfolding example_split by simp

theorem process_edges_segment_order_witness:
  "process_edges [Tensor [3, 5] [1, 2], Tensor [4] [0]] (1 / 2)
       (\<lambda>i. if i = 0 then [1, 0] else [1])
     = Inr \<lparr>train_edge_idx = Tensor [3, 1, 4, 0] [1, 3, 0, 4], train_et = [0, 0, 1, 1],
            train_range = [(0, 2), (2, 4)],
            test_edge_idx = Tensor [5, 2] [2, 5], test_et = [0, 0],
            test_range = [(0, 2), (2, 2)]\<rparr>
   \<and> columns (slice_cols (Tensor [3, 1, 4, 0] [1, 3, 0, 4]) 0 2) = [(3, 1), (1, 3)]
   \<and> columns (slice_cols (Tensor [5, 2] [2, 5]) 0 2) = [(5, 2), (2, 5)]"
proof -
  have s: "train_set_of (\<lambda>i. if i = 0 then [1, 0] else [1]) 0 = [0]"
    "test_set_of (\<lambda>i. if i = 0 then [1, 0] else [1]) 0 = [1]"
    by (simp_all add: train_set_of_def test_set_of_def nonzero_Cons nonzero_Nil)
  show ?thesis
    using process_edges_segment_order [OF _ _ _ example_wf example_draws, of 0]
    unfolding example_split s by (simp add: columns_def)
qed

theorem process_edges_boundary_p_witness:
  "process_edges [Tensor [3, 5] [1, 2], Tensor [4] [0]] 1
       (\<lambda>i. if i = 0 then [1, 1] else [1])
     = Inr \<lparr>train_edge_idx = Tensor [3, 5, 1, 2, 4, 0] [1, 2, 3, 5, 0, 4],
            train_et = [0, 0, 0, 0, 1, 1], train_range = [(0, 4), (4, 6)],
            test_edge_idx = Tensor [] [], test_et = [],
            test_range = [(0, 0), (0, 0)]\<rparr>
   \<and> process_edges [Tensor [3, 5] [1, 2], Tensor [4] [0]] 3
       (\<lambda>i. if i = 0 then [1, 1] else [1]) = Inl ValueError"
  using process_edges_boundary_p [OF _ example_wf, of 1 "\<lambda>i. if i = 0 then [1, 1] else [1]"]
    process_edges_boundary_p [OF _ example_wf, of 3 "\<lambda>i. if i = 0 then [1, 1] else [1]"]
    example_draws_1
  by (simp add: eval_defs)

end
